theory Spec2Isabelle
  imports Main "HOL-Library.Word"
begin

text \<open>
  A model of the TreeViz OAuth client: the constructor of \<^verbatim>\<open>TreeVizOAuth\<close> and
  \<^verbatim>\<open>getConfig\<close>, the PKCE helpers, \<^verbatim>\<open>exchangeCodeWithBackend\<close>, and
  \<^verbatim>\<open>signIn\<close> as a machine driven by window messages, interval ticks and the
  answer of the exchange. It follows the current revision of the client, the one with
  the PKCE exchange and the \<open>environment\<close> setting.
\<close>

section \<open>JavaScript values\<close>

text \<open>
  The client receives untyped data at run time: the payload of a window message and the
  parsed JSON of an HTTP response. Both are modelled by one datatype of JavaScript
  values. An object is the list of its own properties, in insertion order.
\<close>

datatype jsval =
    JUndefined
  | JNull
  | JBool bool
  | JNum int
  | JStr string
  | JArr "jsval list"
  | JObj "(string \<times> jsval) list"

text \<open>ToBoolean, as used by \<^verbatim>\<open>!x\<close>, \<^verbatim>\<open>x && y\<close> and \<^verbatim>\<open>x || y\<close>.\<close>

fun truthy :: "jsval \<Rightarrow> bool" where
  "truthy JUndefined = False"
| "truthy JNull = False"
| "truthy (JBool b) = b"
| "truthy (JNum n) = (n \<noteq> 0)"
| "truthy (JStr s) = (s \<noteq> [])"
| "truthy (JArr xs) = True"
| "truthy (JObj kvs) = True"

text \<open>
  Everything the code can throw or reject with. The constructors stand for the
  \<^verbatim>\<open>Error\<close> objects of the source, named after their messages;
  \<open>TypeError\<close> is what reading a property of \<^verbatim>\<open>null\<close> or
  \<^verbatim>\<open>undefined\<close> raises, \<open>SyntaxError\<close> what
  \<^verbatim>\<open>response.json()\<close> raises on a body that is not JSON.
\<close>

datatype error =
    AppIdRequired
  | AppSecretRequired
  | ExchangeTokenUrlRequired
  | PopupBlocked
  | InvalidAuthResponse
  | TokenExchangeFailed
  | ProviderError jsval
  | AuthenticationFailed
  | AuthenticationCancelled
  | BackendExchangeFailed nat string
  | InvalidBackendResponse
  | TypeError
  | SyntaxError

text \<open>
  Property read \<^verbatim>\<open>v.k\<close>: a \<open>TypeError\<close> on \<^verbatim>\<open>null\<close> and
  \<^verbatim>\<open>undefined\<close>, the first binding of \<open>k\<close> on an object, and
  \<^verbatim>\<open>undefined\<close> on a missing key and on the other values (none of the keys
  the client reads is a built-in property of a primitive or an array).
\<close>

fun get :: "jsval \<Rightarrow> string \<Rightarrow> error + jsval" where
  "get JUndefined k = Inl TypeError"
| "get JNull k = Inl TypeError"
| "get (JObj kvs) k = (case map_of kvs k of None \<Rightarrow> Inr JUndefined | Some v \<Rightarrow> Inr v)"
| "get v k = Inr JUndefined"

section \<open>Configuration and construction\<close>

datatype environment = production | development

text \<open>\<^verbatim>\<open>TreeVizOAuthConfig\<close>: an optional field that is left out is \<open>None\<close>.\<close>

record TreeVizOAuthConfig =
  environment :: "environment option"
  appId :: string
  appSecret :: "string option"
  scopes :: "string list option"
  popupWidth :: "int option"
  popupHeight :: "int option"
  usePKCE :: "bool option"
  exchangeTokenUrl :: "string option"

text \<open>The private fields of an instance of class \<^verbatim>\<open>TreeVizOAuth\<close>.\<close>

record TreeVizOAuth =
  this_appId :: string
  this_appSecret :: "string option"
  this_scopes :: "string list"
  this_popupWidth :: int
  this_popupHeight :: int
  this_usePKCE :: bool
  this_exchangeTokenUrl :: "string option"
  this_environment :: environment

text \<open>
  \<^verbatim>\<open>!config.field\<close> on an optional string is false exactly when the field is
  given and not the empty string.
\<close>

definition provided :: "string option \<Rightarrow> bool" where
  "provided s = (case s of None \<Rightarrow> False | Some t \<Rightarrow> t \<noteq> [])"

definition DEFAULT_OAUTH_SCOPES :: "string list" where
  "DEFAULT_OAUTH_SCOPES = [''email'', ''profile'']"

text \<open>\<^verbatim>\<open>n || d\<close> on an optional number: the default replaces a missing field and 0.\<close>

definition or_default :: "int option \<Rightarrow> int \<Rightarrow> int" where
  "or_default n d = (case n of None \<Rightarrow> d | Some m \<Rightarrow> if m = 0 then d else m)"

definition constructor :: "TreeVizOAuthConfig \<Rightarrow> error + TreeVizOAuth" where
  "constructor config =
     (if appId config = [] then Inl AppIdRequired
      else
        let pkce = (usePKCE config \<noteq> Some False) in
        if \<not> pkce \<and> \<not> provided (appSecret config) then Inl AppSecretRequired
        else if pkce \<and> \<not> provided (exchangeTokenUrl config) then Inl ExchangeTokenUrlRequired
        else Inr \<lparr>
          this_appId = appId config,
          this_appSecret = appSecret config,
          this_scopes = (case scopes config of None \<Rightarrow> DEFAULT_OAUTH_SCOPES | Some s \<Rightarrow> s),
          this_popupWidth = or_default (popupWidth config) 600,
          this_popupHeight = or_default (popupHeight config) 700,
          this_usePKCE = pkce,
          this_exchangeTokenUrl = exchangeTokenUrl config,
          this_environment = (case environment config of None \<Rightarrow> production | Some e \<Rightarrow> e)
        \<rparr>)"

definition environment_name :: "environment \<Rightarrow> string" where
  "environment_name e = (case e of production \<Rightarrow> ''production'' | development \<Rightarrow> ''development'')"

text \<open>\<^verbatim>\<open>getConfig\<close> returns an object literal: its seven properties, in order.\<close>

definition getConfig :: "TreeVizOAuth \<Rightarrow> (string \<times> jsval) list" where
  "getConfig this =
     [(''environment'', JStr (environment_name (this_environment this))),
      (''appId'', JStr (this_appId this)),
      (''scopes'', JArr (map JStr (this_scopes this))),
      (''popupWidth'', JNum (this_popupWidth this)),
      (''popupHeight'', JNum (this_popupHeight this)),
      (''usePKCE'', JBool (this_usePKCE this)),
      (''exchangeTokenUrl'',
         JStr (case this_exchangeTokenUrl this of None \<Rightarrow> [] | Some u \<Rightarrow> u))]"

text \<open>A configuration used in the examples: PKCE mode, with a secret given as well.\<close>

definition sample_config :: TreeVizOAuthConfig where
  "sample_config = \<lparr>
     environment = None, appId = ''app'', appSecret = Some ''s3cret'', scopes = None,
     popupWidth = None, popupHeight = None, usePKCE = None,
     exchangeTokenUrl = Some ''https://api.example.com/exchange'' \<rparr>"

section \<open>PKCE: verifier and challenge\<close>

text \<open>
  \<^verbatim>\<open>btoa\<close> is the browser's base64 encoder (RFC 4648, section 4), applied by the
  source to the binary string \<^verbatim>\<open>String.fromCharCode(...buffer)\<close>, whose code
  units are the bytes of the buffer. It is written out here on the bytes: three bytes
  give four characters, a rest of one or two bytes is padded with \<open>=\<close>.
\<close>

definition b64_alphabet :: string where
  "b64_alphabet = ''ABCDEFGHIJKLMNOPQRSTUVWXYZabcdefghijklmnopqrstuvwxyz0123456789+/''"

definition b64_char :: "nat \<Rightarrow> char" where
  "b64_char n = b64_alphabet ! n"

fun btoa :: "8 word list \<Rightarrow> string" where
  "btoa [] = []"
| "btoa [a] =
     [b64_char (unat a div 4), b64_char ((unat a mod 4) * 16), CHR ''='', CHR ''='']"
| "btoa [a, b] =
     [b64_char (unat a div 4), b64_char ((unat a mod 4) * 16 + unat b div 16),
      b64_char ((unat b mod 16) * 4), CHR ''='']"
| "btoa (a # b # c # rest) =
     [b64_char (unat a div 4), b64_char ((unat a mod 4) * 16 + unat b div 16),
      b64_char ((unat b mod 16) * 4 + unat c div 64), b64_char (unat c mod 64)] @ btoa rest"

text \<open>\<^verbatim>\<open>s.replace(/x/g, y)\<close> for a single character \<open>x\<close>.\<close>

definition replace_all :: "char \<Rightarrow> string \<Rightarrow> string \<Rightarrow> string" where
  "replace_all x y s = concat (map (\<lambda>c. if c = x then y else [c]) s)"

definition base64UrlEncode :: "8 word list \<Rightarrow> string" where
  "base64UrlEncode buffer =
     replace_all CHR ''='' [] (replace_all CHR ''/'' ''_'' (replace_all CHR ''+'' ''-'' (btoa buffer)))"

text \<open>
  \<^verbatim>\<open>crypto.getRandomValues\<close> fills the 32 cells of the array; the parameter gives
  the byte it writes at each index.
\<close>

definition generateCodeVerifier :: "(nat \<Rightarrow> 8 word) \<Rightarrow> string" where
  "generateCodeVerifier getRandomValues = base64UrlEncode (map getRandomValues [0..<32])"

text \<open>
  \<^verbatim>\<open>crypto.subtle.digest("SHA-256", _)\<close> is a primitive of the browser and a
  parameter here. \<^verbatim>\<open>TextEncoder.encode\<close> of a verifier, whose characters are
  ASCII, gives one byte for each character.
\<close>

definition encode :: "string \<Rightarrow> 8 word list" where
  "encode s = map (\<lambda>c. of_nat (of_char c)) s"

definition generateCodeChallenge :: "(8 word list \<Rightarrow> 8 word list) \<Rightarrow> string \<Rightarrow> string" where
  "generateCodeChallenge digest verifier = base64UrlEncode (digest (encode verifier))"

text \<open>The characters a verifier may use: \<^verbatim>\<open>[A-Za-z0-9-._~]\<close>.\<close>

definition unreserved :: "char set" where
  "unreserved = set ''ABCDEFGHIJKLMNOPQRSTUVWXYZabcdefghijklmnopqrstuvwxyz0123456789-._~''"

section \<open>The backend exchange\<close>

record request =
  req_url :: string
  req_method :: string
  req_headers :: "(string \<times> string) list"
  req_body :: jsval

text \<open>
  An HTTP response: \<open>body_json\<close> is what \<^verbatim>\<open>response.json()\<close> parses the body
  to, \<open>None\<close> when the body is not JSON. \<open>req_body\<close> above is the value the source
  hands to \<^verbatim>\<open>JSON.stringify\<close>.
\<close>

record response =
  status :: nat
  body_text :: string
  body_json :: "jsval option"

definition ok :: "response \<Rightarrow> bool" where
  "ok r = (200 \<le> status r \<and> status r \<le> 299)"

text \<open>What a \<^verbatim>\<open>catch\<close> can receive: an \<^verbatim>\<open>Error\<close> or any other value.\<close>

datatype thrown = ThrownError error | ThrownValue jsval

datatype fetch_outcome = Responds response | Rejects thrown

definition exchange_request :: "string \<Rightarrow> jsval \<Rightarrow> string \<Rightarrow> request" where
  "exchange_request exchangeUrl code codeVerifier = \<lparr>
     req_url = exchangeUrl,
     req_method = ''POST'',
     req_headers = [(''Content-Type'', ''application/json'')],
     req_body = JObj [(''data'', JObj [(''code'', code), (''codeVerifier'', JStr codeVerifier)])] \<rparr>"

text \<open>The part of \<^verbatim>\<open>exchangeCodeWithBackend\<close> after \<^verbatim>\<open>await fetch\<close>.\<close>

definition exchange_response :: "fetch_outcome \<Rightarrow> thrown + jsval" where
  "exchange_response outcome =
     (case outcome of
        Rejects t \<Rightarrow> Inl t
      | Responds r \<Rightarrow>
          if \<not> ok r then Inl (ThrownError (BackendExchangeFailed (status r) (body_text r)))
          else (case body_json r of
                  None \<Rightarrow> Inl (ThrownError SyntaxError)
                | Some result \<Rightarrow>
                    (case get result ''result'' of
                       Inl e \<Rightarrow> Inl (ThrownError e)
                     | Inr v \<Rightarrow>
                         if \<not> truthy v then Inl (ThrownError InvalidBackendResponse)
                         else Inr v)))"

text \<open>
  \<^verbatim>\<open>exchangeCodeWithBackend\<close> against a network that answers each request:
  the requests it issued, in order, and what it returns or throws.
\<close>

definition exchangeCodeWithBackend ::
  "(request \<Rightarrow> fetch_outcome) \<Rightarrow> string \<Rightarrow> jsval \<Rightarrow> string \<Rightarrow> request list \<times> (thrown + jsval)" where
  "exchangeCodeWithBackend fetch exchangeUrl code codeVerifier =
     (let req = exchange_request exchangeUrl code codeVerifier
      in ([req], exchange_response (fetch req)))"

text \<open>The response has the envelope when its body parses to a value with a truthy \<open>result\<close>.\<close>

definition has_envelope :: "response \<Rightarrow> bool" where
  "has_envelope r =
     (case body_json r of
        None \<Rightarrow> False
      | Some j \<Rightarrow> (case get j ''result'' of Inl e \<Rightarrow> False | Inr v \<Rightarrow> truthy v))"

section \<open>The sign-in flow\<close>

text \<open>\<^verbatim>\<open>TreeVizAuthResult\<close>, with the values the run-time objects carry.\<close>

record TreeVizAuthResult =
  token :: jsval
  uid :: jsval
  email :: jsval
  displayName :: jsval
  photoURL :: jsval

datatype promise = Pending | Resolved TreeVizAuthResult | Rejected error

text \<open>The calls one invocation of \<^verbatim>\<open>signIn\<close> makes on the browser, as they happen.\<close>

datatype effect =
    SetItem string string
  | WindowOpen "(string \<times> string) list"
  | AddEventListener
  | RemoveEventListener
  | SetInterval
  | ClearInterval
  | PopupClose
  | Fetch request
  | Resolve TreeVizAuthResult
  | Reject error

text \<open>
  What the browser supplies to an invocation: the page's origin, the random bytes, the
  digest, and whether \<^verbatim>\<open>window.open\<close> returns a window.
\<close>

record browser =
  origin :: string
  getRandomValues :: "nat \<Rightarrow> 8 word"
  sha256 :: "8 word list \<Rightarrow> 8 word list"
  popup_opens :: bool

text \<open>
  The state of one invocation: whether \<^verbatim>\<open>messageHandler\<close> is registered on the
  window, whether the interval \<^verbatim>\<open>checkClosed\<close> is set, \<^verbatim>\<open>popup.closed\<close>,
  whether the handler is suspended at \<^verbatim>\<open>await exchangeCodeWithBackend\<close>, the
  closure variable \<^verbatim>\<open>codeVerifier\<close>, the promise \<^verbatim>\<open>signIn\<close> returned,
  the page's session storage as this invocation sees it, and the effects so far, oldest
  first. All but the session storage is private to the invocation; the session storage
  belongs to the page and is shared by its invocations (see \<open>page\<close> below).
\<close>

record flow =
  listener :: bool
  timer :: bool
  popup_closed :: bool
  awaiting_exchange :: bool
  codeVerifier :: "string option"
  promise :: promise
  sessionStorage :: "string \<rightharpoonup> string"
  trace :: "effect list"

text \<open>\<^verbatim>\<open>xs.join(sep)\<close>\<close>

fun join :: "string \<Rightarrow> string list \<Rightarrow> string" where
  "join sep [] = []"
| "join sep [x] = x"
| "join sep (x # y # ys) = x @ sep @ join sep (y # ys)"

text \<open>
  Calling \<^verbatim>\<open>resolve\<close> or \<^verbatim>\<open>reject\<close>: the call is recorded, and it
  settles the promise only when the promise is still pending.
\<close>

definition resolve :: "TreeVizAuthResult \<Rightarrow> flow \<Rightarrow> flow" where
  "resolve r st = st\<lparr>
     promise := (if promise st = Pending then Resolved r else promise st),
     trace := trace st @ [Resolve r] \<rparr>"

definition reject :: "error \<Rightarrow> flow \<Rightarrow> flow" where
  "reject e st = st\<lparr>
     promise := (if promise st = Pending then Rejected e else promise st),
     trace := trace st @ [Reject e] \<rparr>"

text \<open>
  \<^verbatim>\<open>signIn\<close> up to the point where it returns the pending promise. The popup's URL
  is the authorization URL followed by the form-encoded \<open>authParams\<close>, which
  \<open>WindowOpen\<close> records; the geometry of the popup is left out.
\<close>

definition signIn :: "TreeVizOAuth \<Rightarrow> browser \<Rightarrow> (string \<rightharpoonup> string) \<Rightarrow> flow" where
  "signIn this b storage =
     (let authParams =
            [(''appId'', this_appId this),
             (''origin'', origin b),
             (''callbackUri'', origin b @ ''/auth/callback''),
             (''scope'', join '' '' (this_scopes this))];
          verifier = generateCodeVerifier (getRandomValues b);
          challenge = generateCodeChallenge (sha256 b) verifier;
          st = (if this_usePKCE this then
                  \<lparr> listener = False, timer = False, popup_closed = False,
                    awaiting_exchange = False, codeVerifier = Some verifier, promise = Pending,
                    sessionStorage = storage(''pkce_code_verifier'' \<mapsto> verifier,
                                             ''pkce_code_challenge'' \<mapsto> challenge),
                    trace = [SetItem ''pkce_code_verifier'' verifier,
                             SetItem ''pkce_code_challenge'' challenge,
                             WindowOpen (authParams @
                               [(''code_challenge'', challenge),
                                (''code_challenge_method'', ''S256'')])] \<rparr>
                else
                  \<lparr> listener = False, timer = False, popup_closed = False,
                    awaiting_exchange = False, codeVerifier = None, promise = Pending,
                    sessionStorage = storage,
                    trace = [WindowOpen (authParams @
                               [(''appSecret'',
                                 case this_appSecret this of
                                   None \<Rightarrow> ''undefined'' | Some s \<Rightarrow> s)])] \<rparr>)
      in if \<not> popup_opens b then reject PopupBlocked st
         else st\<lparr> listener := True, timer := True,
                  trace := trace st @ [AddEventListener, SetInterval] \<rparr>)"

text \<open>
  The three calls both terminal branches of \<^verbatim>\<open>messageHandler\<close> start with:
  \<^verbatim>\<open>removeEventListener\<close>, \<^verbatim>\<open>clearInterval\<close>, \<^verbatim>\<open>popup.close()\<close>.
\<close>

definition teardown :: "flow \<Rightarrow> flow" where
  "teardown st = st\<lparr>
     listener := False, timer := False, popup_closed := True,
     trace := trace st @ [RemoveEventListener, ClearInterval, PopupClose] \<rparr>"

text \<open>\<^verbatim>\<open>v || null\<close>\<close>

definition or_null :: "jsval \<Rightarrow> jsval" where
  "or_null v = (if truthy v then v else JNull)"

text \<open>
  The \<^verbatim>\<open>try\<close> block of the success branch up to its \<^verbatim>\<open>await\<close>; whatever it
  throws is caught and rejects the promise. In PKCE mode with a code, the handler issues
  the request and is suspended.
\<close>

definition on_success :: "TreeVizOAuth \<Rightarrow> jsval \<Rightarrow> flow \<Rightarrow> flow" where
  "on_success this data st =
     (if this_usePKCE this then
        (case get data ''code'' of
           Inl e \<Rightarrow> reject e st
         | Inr code \<Rightarrow>
             if truthy code \<and> provided (codeVerifier st) then
               st\<lparr> awaiting_exchange := True,
                   trace := trace st @
                     [Fetch (exchange_request
                        (case this_exchangeTokenUrl this of None \<Rightarrow> ''undefined'' | Some u \<Rightarrow> u)
                        code (the (codeVerifier st)))] \<rparr>
             else reject InvalidAuthResponse st)
      else
        (case get data ''token'' of
           Inl e \<Rightarrow> reject e st
         | Inr tok \<Rightarrow>
             if \<not> truthy tok then reject InvalidAuthResponse st
             else
               (case get data ''uid'' of
                  Inl e \<Rightarrow> reject e st
                | Inr u \<Rightarrow>
                    if \<not> truthy u then reject InvalidAuthResponse st
                    else
                      (case (get data ''email'', get data ''displayName'', get data ''photoURL'') of
                         (Inr em, Inr dn, Inr ph) \<Rightarrow>
                           resolve \<lparr> token = tok, uid = u, email = or_null em,
                                     displayName = or_null dn, photoURL = or_null ph \<rparr> st
                       | _ \<Rightarrow> reject TypeError st))))"

text \<open>
  The rest of the \<^verbatim>\<open>try\<close> block, run when the exchange has answered: the result
  is read (the log line reads \<^verbatim>\<open>result.user.uid\<close> first) and the promise
  resolved; a failed exchange or a failed read is caught and rejects it.
\<close>

definition caught :: "thrown \<Rightarrow> error" where
  "caught t = (case t of ThrownError e \<Rightarrow> e | ThrownValue v \<Rightarrow> TokenExchangeFailed)"

definition read_result :: "jsval \<Rightarrow> error + TreeVizAuthResult" where
  "read_result result =
     (case get result ''user'' of
        Inl e \<Rightarrow> Inl e
      | Inr user \<Rightarrow>
          (case get user ''uid'' of
             Inl e \<Rightarrow> Inl e
           | Inr u \<Rightarrow>
               (case (get result ''firebaseToken'', get user ''email'',
                      get user ''displayName'', get user ''photoURL'') of
                  (Inr tok, Inr em, Inr dn, Inr ph) \<Rightarrow>
                    Inr \<lparr> token = tok, uid = u, email = em, displayName = dn, photoURL = ph \<rparr>
                | _ \<Rightarrow> Inl TypeError)))"

definition on_exchanged :: "fetch_outcome \<Rightarrow> flow \<Rightarrow> flow" where
  "on_exchanged outcome st =
     (let st' = st\<lparr> awaiting_exchange := False \<rparr> in
      case exchange_response outcome of
        Inl t \<Rightarrow> reject (caught t) st'
      | Inr result \<Rightarrow>
          (case read_result result of
             Inl e \<Rightarrow> reject e st'
           | Inr r \<Rightarrow> resolve r st'))"

text \<open>
  \<^verbatim>\<open>messageHandler\<close> on the payload \<^verbatim>\<open>event.data\<close>, up to its first
  suspension: the new state, or the exception that escapes it.
\<close>

definition messageHandler :: "TreeVizOAuth \<Rightarrow> jsval \<Rightarrow> flow \<Rightarrow> error + flow" where
  "messageHandler this data st =
     (if \<not> truthy data then Inr st
      else
        (case get data ''type'' of
           Inl e \<Rightarrow> Inl e
         | Inr ty \<Rightarrow>
             if \<not> truthy ty then Inr st
             else if ty \<noteq> JStr ''TREEVIZ_AUTH_SUCCESS'' \<and> ty \<noteq> JStr ''TREEVIZ_AUTH_ERROR''
               then Inr st
             else if ty = JStr ''TREEVIZ_AUTH_SUCCESS''
               then Inr (on_success this data (teardown st))
             else if ty = JStr ''TREEVIZ_AUTH_ERROR'' then
               (case get data ''error'' of
                  Inl e \<Rightarrow> Inl e
                | Inr err \<Rightarrow>
                    Inr (reject (if truthy err then ProviderError err else AuthenticationFailed)
                           (teardown st)))
             else Inr st))"

text \<open>The callback of the interval \<^verbatim>\<open>checkClosed\<close>.\<close>

definition checkClosed :: "flow \<Rightarrow> flow" where
  "checkClosed st =
     (if popup_closed st then
        reject AuthenticationCancelled
          (st\<lparr> timer := False, listener := False,
               trace := trace st @ [ClearInterval, RemoveEventListener] \<rparr>)
      else st)"

text \<open>
  What can happen to a flow: the window receives a message, the interval elapses, the
  user closes the popup, the exchange request is answered. A message reaches the
  handler only while it is registered, a tick the callback only while the interval is
  set, and an answer the handler only while it is suspended. An exception that escapes
  the handler leaves the state as the handler found it.
\<close>

datatype event = Message jsval | Tick | UserClosesPopup | Exchanged fetch_outcome

definition step :: "TreeVizOAuth \<Rightarrow> flow \<Rightarrow> event \<Rightarrow> flow" where
  "step this st ev =
     (case ev of
        Message data \<Rightarrow>
          if listener st then
            (case messageHandler this data st of Inl e \<Rightarrow> st | Inr st' \<Rightarrow> st')
          else st
      | Tick \<Rightarrow> if timer st then checkClosed st else st
      | UserClosesPopup \<Rightarrow> st\<lparr> popup_closed := True \<rparr>
      | Exchanged outcome \<Rightarrow> if awaiting_exchange st then on_exchanged outcome st else st)"

definition run :: "TreeVizOAuth \<Rightarrow> flow \<Rightarrow> event list \<Rightarrow> flow" where
  "run this st evs = foldl (step this) st evs"

subsection \<open>Reading a trace\<close>

definition is_settle :: "effect \<Rightarrow> bool" where
  "is_settle e = (case e of Resolve r \<Rightarrow> True | Reject x \<Rightarrow> True | _ \<Rightarrow> False)"

definition settle_count :: "effect list \<Rightarrow> nat" where
  "settle_count es = length (filter is_settle es)"

text \<open>
  \<open>torn_down_first l t es\<close>: every call of \<^verbatim>\<open>resolve\<close> or \<^verbatim>\<open>reject\<close> in
  \<open>es\<close> comes after a \<^verbatim>\<open>removeEventListener\<close> and after a
  \<^verbatim>\<open>clearInterval\<close>; \<open>l\<close> and \<open>t\<close> say whether these have happened before
  \<open>es\<close> starts.
\<close>

fun torn_down_first :: "bool \<Rightarrow> bool \<Rightarrow> effect list \<Rightarrow> bool" where
  "torn_down_first l t [] = True"
| "torn_down_first l t (e # es) =
     ((if is_settle e then l \<and> t else True) \<and>
      torn_down_first (l \<or> e = RemoveEventListener) (t \<or> e = ClearInterval) es)"

subsection \<open>The page: several invocations, one session storage\<close>

text \<open>
  \<^verbatim>\<open>window.sessionStorage\<close> is one store for the whole page, and every PKCE
  invocation writes the same two keys. A page is that store together with the
  invocations of \<^verbatim>\<open>signIn\<close> started so far, each with the instance it was called
  on. An invocation starts on the store as it is, and an event delivered to the
  \<open>i\<close>-th invocation runs its step on the store as it is. Other code of the page that
  writes the store is outside the model.
\<close>

record page =
  page_storage :: "string \<rightharpoonup> string"
  invocations :: "(TreeVizOAuth \<times> flow) list"

datatype page_event = StartSignIn TreeVizOAuth browser | Deliver nat event

definition page_step :: "page \<Rightarrow> page_event \<Rightarrow> page" where
  "page_step p pe =
     (case pe of
        StartSignIn this b \<Rightarrow>
          (let f = signIn this b (page_storage p)
           in \<lparr> page_storage = sessionStorage f, invocations = invocations p @ [(this, f)] \<rparr>)
      | Deliver i ev \<Rightarrow>
          if i < length (invocations p) then
            (let this = fst (invocations p ! i);
                 f = step this ((snd (invocations p ! i))\<lparr> sessionStorage := page_storage p \<rparr>) ev
             in \<lparr> page_storage = sessionStorage f,
                  invocations = (invocations p)[i := (this, f)] \<rparr>)
          else p)"

definition page_run :: "page \<Rightarrow> page_event list \<Rightarrow> page" where
  "page_run p pes = foldl page_step p pes"

text \<open>The events a run of the page delivers to its \<open>i\<close>-th invocation, in order.\<close>

definition deliveries :: "nat \<Rightarrow> page_event list \<Rightarrow> event list" where
  "deliveries i pes =
     concat (map (\<lambda>pe. case pe of Deliver j ev \<Rightarrow> if j = i then [ev] else []
                               | StartSignIn this b \<Rightarrow> []) pes)"

text \<open>The state of a flow without its view of the session storage.\<close>

definition closure_state :: "flow \<Rightarrow> flow" where
  "closure_state f = f\<lparr> sessionStorage := Map.empty \<rparr>"

text \<open>The page events that start an invocation in PKCE mode.\<close>

definition starts_pkce :: "page_event \<Rightarrow> bool" where
  "starts_pkce pe =
     (case pe of StartSignIn this b \<Rightarrow> this_usePKCE this | Deliver i ev \<Rightarrow> False)"

subsection \<open>The invariant of a flow whose popup opened\<close>

text \<open>
  While the promise is pending the flow either still listens (handler registered,
  interval set) or waits for the exchange with both already released; once the promise
  is settled nothing is registered and \<^verbatim>\<open>resolve\<close> or \<^verbatim>\<open>reject\<close> has
  been called exactly once.
\<close>

definition flow_inv :: "flow \<Rightarrow> bool" where
  "flow_inv st \<longleftrightarrow>
     torn_down_first False False (trace st) \<and>
     (if promise st = Pending then
        settle_count (trace st) = 0 \<and>
        (if awaiting_exchange st
         then \<not> listener st \<and> \<not> timer st \<and>
              RemoveEventListener \<in> set (trace st) \<and> ClearInterval \<in> set (trace st)
         else listener st \<and> timer st)
      else
        settle_count (trace st) = 1 \<and> \<not> listener st \<and> \<not> timer st \<and>
        \<not> awaiting_exchange st)"

definition listening :: "flow \<Rightarrow> bool" where
  "listening st \<longleftrightarrow> flow_inv st \<and> promise st = Pending \<and> \<not> awaiting_exchange st"

text \<open>The three replacements of \<open>base64UrlEncode\<close> on one character other than \<open>=\<close>.\<close>

definition url_char :: "char \<Rightarrow> char" where
  "url_char c = (if c = CHR ''+'' then CHR ''-'' else if c = CHR ''/'' then CHR ''_'' else c)"

subsection \<open>Sample inputs\<close>

definition legacy_config :: TreeVizOAuthConfig where
  "legacy_config = sample_config \<lparr> usePKCE := Some False \<rparr>"

definition sample_client :: TreeVizOAuth where
  "sample_client = \<lparr>
     this_appId = ''app'', this_appSecret = Some ''s3cret'',
     this_scopes = [''email'', ''profile''], this_popupWidth = 600, this_popupHeight = 700,
     this_usePKCE = True, this_exchangeTokenUrl = Some ''https://api.example.com/exchange'',
     this_environment = production \<rparr>"

text \<open>
  A browser for the examples. Its digest is a stand-in (32 zero bytes for every input):
  no result below depends on what the digest computes.
\<close>

definition sample_entropy :: "nat \<Rightarrow> 8 word" where
  "sample_entropy i = of_nat (7 * i + 3)"

definition sample_digest :: "8 word list \<Rightarrow> 8 word list" where
  "sample_digest bs = replicate 32 0"

definition sample_browser :: browser where
  "sample_browser = \<lparr>
     origin = ''https://app.example.com'', getRandomValues = sample_entropy,
     sha256 = sample_digest, popup_opens = True \<rparr>"

definition blocking_browser :: browser where
  "blocking_browser = sample_browser \<lparr> popup_opens := False \<rparr>"

definition success_message :: jsval where
  "success_message = JObj [(''type'', JStr ''TREEVIZ_AUTH_SUCCESS''), (''code'', JStr ''abc'')]"

definition exchange_body :: jsval where
  "exchange_body =
     JObj [(''result'',
       JObj [(''firebaseToken'', JStr ''T''),
             (''user'', JObj [(''uid'', JStr ''U''), (''email'', JStr ''e@x.com''),
                              (''displayName'', JStr ''D''), (''photoURL'', JNull)])])]"

definition sample_response :: response where
  "sample_response = \<lparr> status = 200, body_text = [], body_json = Some exchange_body \<rparr>"

definition sample_fetch :: "request \<Rightarrow> fetch_outcome" where
  "sample_fetch req = Responds sample_response"

definition sample_events :: "event list" where
  "sample_events = [Message success_message, Exchanged (Responds sample_response)]"

definition empty_page :: page where
  "empty_page = \<lparr> page_storage = Map.empty, invocations = [] \<rparr>"

definition second_entropy :: "nat \<Rightarrow> 8 word" where
  "second_entropy i = of_nat (11 * i + 5)"

definition second_browser :: browser where
  "second_browser = sample_browser \<lparr> getRandomValues := second_entropy \<rparr>"

definition cancel_events :: "event list" where
  "cancel_events = [UserClosesPopup, Tick]"

text \<open>Invocation 0 receives the success message and then the answer of the exchange.\<close>

definition sample_deliveries :: "page_event list" where
  "sample_deliveries =
     [Deliver 0 (Message success_message), Deliver 0 (Exchanged (Responds sample_response))]"

text \<open>The user closes the popup of invocation 0 and the next tick finds it closed.\<close>

definition cancel_deliveries :: "page_event list" where
  "cancel_deliveries = [Deliver 0 UserClosesPopup, Deliver 0 Tick]"

text \<open>A second invocation starts while the first is pending; then the first completes.\<close>

definition overlapping_deliveries :: "page_event list" where
  "overlapping_deliveries = StartSignIn sample_client second_browser # sample_deliveries"

text \<open>The invariant of a flow whose popup was blocked.\<close>

definition blocked_inv :: "flow \<Rightarrow> bool" where
  "blocked_inv st \<longleftrightarrow>
     promise st = Rejected PopupBlocked \<and> \<not> listener st \<and> \<not> timer st \<and>
     \<not> awaiting_exchange st \<and>
     AddEventListener \<notin> set (trace st) \<and> SetInterval \<notin> set (trace st)"

section \<open>Properties of construction\<close>

text \<open>
  C4. The constructor throws when \<open>appId\<close> is empty, when PKCE is on (\<open>usePKCE\<close> true
  or left out) and \<open>exchangeTokenUrl\<close> is missing, and when PKCE is off and
  \<open>appSecret\<close> is missing; when none of the three holds it returns an instance.
  Missing is the source's own test \<^verbatim>\<open>!config.field\<close>: left out or empty.
\<close>

theorem constructor_validation:
  "(appId config = [] \<longrightarrow> constructor config = Inl AppIdRequired) \<and>
   (usePKCE config \<noteq> Some False \<and> \<not> provided (exchangeTokenUrl config) \<longrightarrow>
      (\<exists>e. constructor config = Inl e)) \<and>
   (usePKCE config = Some False \<and> \<not> provided (appSecret config) \<longrightarrow>
      (\<exists>e. constructor config = Inl e)) \<and>
   (appId config \<noteq> [] \<and>
    (usePKCE config \<noteq> Some False \<longrightarrow> provided (exchangeTokenUrl config)) \<and>
    (usePKCE config = Some False \<longrightarrow> provided (appSecret config)) \<longrightarrow>
      (\<exists>this. constructor config = Inr this))"
  by (simp add: constructor_def Let_def)

theorem constructor_validation_witness:
  "constructor (sample_config \<lparr> appId := [] \<rparr>) = Inl AppIdRequired \<and>
   (\<exists>e. constructor (sample_config \<lparr> exchangeTokenUrl := None \<rparr>) = Inl e) \<and>
   (\<exists>e. constructor (sample_config \<lparr> usePKCE := Some True, exchangeTokenUrl := None \<rparr>) = Inl e) \<and>
   (\<exists>e. constructor (legacy_config \<lparr> appSecret := None \<rparr>) = Inl e) \<and>
   (\<exists>this. constructor sample_config = Inr this) \<and>
   (\<exists>this. constructor (legacy_config \<lparr> exchangeTokenUrl := None \<rparr>) = Inr this)"
  using constructor_validation [of "sample_config \<lparr> appId := [] \<rparr>"]
    constructor_validation [of "sample_config \<lparr> exchangeTokenUrl := None \<rparr>"]
    constructor_validation [of "sample_config \<lparr> usePKCE := Some True, exchangeTokenUrl := None \<rparr>"]
    constructor_validation [of "legacy_config \<lparr> appSecret := None \<rparr>"]
    constructor_validation [of sample_config]
    constructor_validation [of "legacy_config \<lparr> exchangeTokenUrl := None \<rparr>"]
  by (simp add: sample_config_def legacy_config_def provided_def)

text \<open>
  C3, as the specification states it, asks the constructor to reject a configuration
  that supplies both \<open>exchangeTokenUrl\<close> and \<open>appSecret\<close>. It accepts one, in PKCE mode
  and in legacy mode alike.
\<close>

theorem both_supplied_counterexample:
  "provided (exchangeTokenUrl sample_config) \<and> provided (appSecret sample_config) \<and>
   constructor sample_config = Inr \<lparr>
     this_appId = ''app'', this_appSecret = Some ''s3cret'',
     this_scopes = [''email'', ''profile''], this_popupWidth = 600, this_popupHeight = 700,
     this_usePKCE = True, this_exchangeTokenUrl = Some ''https://api.example.com/exchange'',
     this_environment = production \<rparr> \<and>
   provided (exchangeTokenUrl legacy_config) \<and> provided (appSecret legacy_config) \<and>
   constructor legacy_config = Inr \<lparr>
     this_appId = ''app'', this_appSecret = Some ''s3cret'',
     this_scopes = [''email'', ''profile''], this_popupWidth = 600, this_popupHeight = 700,
     this_usePKCE = False, this_exchangeTokenUrl = Some ''https://api.example.com/exchange'',
     this_environment = production \<rparr>"
  by (simp add: sample_config_def legacy_config_def provided_def constructor_def
      DEFAULT_OAUTH_SCOPES_def or_default_def)

text \<open>
  C3, amended. What the constructor enforces is the presence of the one field the mode
  requires: for a configuration with an \<open>appId\<close>, it throws exactly when
  \<open>exchangeTokenUrl\<close> is missing in PKCE mode, or \<open>appSecret\<close> is missing in legacy
  mode. The other field is not looked at.
\<close>

theorem constructor_required_field:
  "appId config \<noteq> [] \<Longrightarrow>
     (\<exists>e. constructor config = Inl e) \<longleftrightarrow>
     \<not> provided (if usePKCE config \<noteq> Some False then exchangeTokenUrl config
                   else appSecret config)"
  by (simp add: constructor_def Let_def)

theorem constructor_required_field_witness:
  "appId sample_config \<noteq> [] \<and> (\<nexists>e. constructor sample_config = Inl e) \<and>
   appId (legacy_config \<lparr> appSecret := None \<rparr>) \<noteq> [] \<and>
   (\<exists>e. constructor (legacy_config \<lparr> appSecret := None \<rparr>) = Inl e)"
  using constructor_required_field [of sample_config]
    constructor_required_field [of "legacy_config \<lparr> appSecret := None \<rparr>"]
  by (simp add: sample_config_def legacy_config_def provided_def)

text \<open>
  C10. \<^verbatim>\<open>getConfig\<close> does not reveal the secret: two instances built from
  configurations that differ only in \<open>appSecret\<close> return the same object, and the
  object has no property \<open>appSecret\<close>.
\<close>

theorem getConfig_hides_appSecret:
  "constructor config = Inr this \<Longrightarrow>
   constructor (config \<lparr> appSecret := secret \<rparr>) = Inr that \<Longrightarrow>
     getConfig this = getConfig that \<and> map_of (getConfig this) ''appSecret'' = None"
  by (auto simp: constructor_def Let_def getConfig_def split: if_splits)

theorem getConfig_hides_appSecret_witness:
  "constructor legacy_config = Inr (sample_client \<lparr> this_usePKCE := False \<rparr>) \<and>
   constructor (legacy_config \<lparr> appSecret := Some ''other'' \<rparr>) =
     Inr (sample_client \<lparr> this_usePKCE := False, this_appSecret := Some ''other'' \<rparr>) \<and>
   getConfig (sample_client \<lparr> this_usePKCE := False \<rparr>) =
     getConfig (sample_client \<lparr> this_usePKCE := False, this_appSecret := Some ''other'' \<rparr>) \<and>
   map_of (getConfig (sample_client \<lparr> this_usePKCE := False \<rparr>)) ''appSecret'' = None"
proof -
  have a: "constructor legacy_config = Inr (sample_client \<lparr> this_usePKCE := False \<rparr>)"
    by (simp add: sample_config_def legacy_config_def sample_client_def provided_def
        constructor_def DEFAULT_OAUTH_SCOPES_def or_default_def)
  have b: "constructor (legacy_config \<lparr> appSecret := Some ''other'' \<rparr>) =
      Inr (sample_client \<lparr> this_usePKCE := False, this_appSecret := Some ''other'' \<rparr>)"
    by (simp add: sample_config_def legacy_config_def sample_client_def provided_def
        constructor_def DEFAULT_OAUTH_SCOPES_def or_default_def)
  show ?thesis
    using a b getConfig_hides_appSecret [OF a b] by blast
qed

section \<open>Properties of the verifier\<close>

lemma length_b64_alphabet: "length b64_alphabet = 64"
  by (simp add: b64_alphabet_def)

lemma b64_char_mem: "n < 64 \<Longrightarrow> b64_char n \<in> set b64_alphabet"
  by (simp add: b64_char_def length_b64_alphabet)

lemma pad_not_b64: "CHR ''='' \<notin> set b64_alphabet"
  by code_simp

lemma b64_char_not_pad: "n < 64 \<Longrightarrow> b64_char n \<noteq> CHR ''=''"
  using b64_char_mem pad_not_b64 by metis

lemma unat8_lt: "unat (a :: 8 word) < 256"
  using unsigned_less [of a] by simp

lemma sextet_bounds:
  fixes a b c :: "8 word"
  shows "unat a div 4 < 64" "(unat a mod 4) * 16 < 64"
    "(unat a mod 4) * 16 + unat b div 16 < 64" "(unat b mod 16) * 4 < 64"
    "(unat b mod 16) * 4 + unat c div 64 < 64" "unat c mod 64 < 64"
  using unat8_lt [of a] unat8_lt [of b] unat8_lt [of c] by simp_all

lemma set_btoa: "set (btoa bs) \<subseteq> insert CHR ''='' (set b64_alphabet)"
  by (induction bs rule: btoa.induct) (simp_all add: b64_char_mem sextet_bounds)

lemma replace_chain:
  "replace_all CHR ''='' [] (replace_all CHR ''/'' ''_'' (replace_all CHR ''+'' ''-'' s)) =
   map url_char (filter (\<lambda>c. c \<noteq> CHR ''='') s)"
  by (induction s) (simp_all add: replace_all_def url_char_def)

lemma base64UrlEncode_alt:
  "base64UrlEncode bs = map url_char (filter (\<lambda>c. c \<noteq> CHR ''='') (btoa bs))"
  by (simp add: base64UrlEncode_def replace_chain)

lemma length_unpadded:
  "length (filter (\<lambda>c. c \<noteq> CHR ''='') (btoa bs)) = (4 * length bs + 2) div 3"
  by (induction bs rule: btoa.induct) (simp_all add: b64_char_not_pad sextet_bounds)

lemma length_base64UrlEncode: "length (base64UrlEncode bs) = (4 * length bs + 2) div 3"
  by (simp add: base64UrlEncode_alt length_unpadded)

lemma all_unreserved: "list_all (\<lambda>c. url_char c \<in> unreserved) b64_alphabet"
  by code_simp

lemma url_char_unreserved: "c \<in> set b64_alphabet \<Longrightarrow> url_char c \<in> unreserved"
  using all_unreserved by (simp add: list_all_iff)

lemma set_base64UrlEncode: "set (base64UrlEncode bs) \<subseteq> unreserved"
  using set_btoa [of bs] by (auto simp: base64UrlEncode_alt url_char_unreserved)

lemma length_generateCodeVerifier: "length (generateCodeVerifier g) = 43"
  by (simp add: generateCodeVerifier_def length_base64UrlEncode)

text \<open>
  C8. Every verifier \<^verbatim>\<open>generateCodeVerifier\<close> returns, whatever bytes the
  random source writes, has between 43 and 128 characters (it has exactly 43) and only
  characters of \<^verbatim>\<open>[A-Za-z0-9-._~]\<close>.
\<close>

theorem generateCodeVerifier_length_alphabet:
  "43 \<le> length (generateCodeVerifier g) \<and> length (generateCodeVerifier g) \<le> 128 \<and>
   (\<forall>c \<in> set (generateCodeVerifier g). c \<in> unreserved)"
proof -
  have "set (generateCodeVerifier g) \<subseteq> unreserved"
    by (simp add: generateCodeVerifier_def set_base64UrlEncode)
  then show ?thesis
    by (auto simp: length_generateCodeVerifier)
qed

lemma sample_verifier:
  "generateCodeVerifier sample_entropy = ''AwoRGB8mLTQ7QklQV15lbHN6gYiPlp2kq7K5wMfO1dw''"
  by code_simp

theorem generateCodeVerifier_length_alphabet_witness:
  "generateCodeVerifier sample_entropy = ''AwoRGB8mLTQ7QklQV15lbHN6gYiPlp2kq7K5wMfO1dw'' \<and>
   43 \<le> length (generateCodeVerifier sample_entropy) \<and>
   length (generateCodeVerifier sample_entropy) \<le> 128 \<and>
   set (generateCodeVerifier sample_entropy) \<subseteq> unreserved"
  using generateCodeVerifier_length_alphabet [of sample_entropy] sample_verifier by blast

section \<open>Properties of the backend exchange\<close>

text \<open>
  C7. \<^verbatim>\<open>exchangeCodeWithBackend\<close> issues exactly one request, a POST whose body
  is \<^verbatim>\<open>{data: {code, codeVerifier}}\<close>. When the endpoint answers with a response,
  the call throws if and only if the status is not a success status or the parsed body
  has no truthy \<open>result\<close>; otherwise it returns the value under \<open>result\<close>.
\<close>

theorem exchangeCodeWithBackend_contract:
  assumes "fetch (exchange_request exchangeUrl code verifier) = Responds r"
  shows "fst (exchangeCodeWithBackend fetch exchangeUrl code verifier) =
           [\<lparr> req_url = exchangeUrl, req_method = ''POST'',
              req_headers = [(''Content-Type'', ''application/json'')],
              req_body = JObj [(''data'', JObj [(''code'', code),
                                                (''codeVerifier'', JStr verifier)])] \<rparr>] \<and>
         ((\<exists>t. snd (exchangeCodeWithBackend fetch exchangeUrl code verifier) = Inl t) \<longleftrightarrow>
            \<not> ok r \<or> \<not> has_envelope r) \<and>
         (ok r \<and> has_envelope r \<longrightarrow>
            (\<exists>j v. body_json r = Some j \<and> get j ''result'' = Inr v \<and>
                   snd (exchangeCodeWithBackend fetch exchangeUrl code verifier) = Inr v))"
proof -
  have req: "fst (exchangeCodeWithBackend fetch exchangeUrl code verifier) =
      [exchange_request exchangeUrl code verifier]"
    by (simp add: exchangeCodeWithBackend_def Let_def)
  have res: "snd (exchangeCodeWithBackend fetch exchangeUrl code verifier) =
      exchange_response (Responds r)"
    using assms by (simp add: exchangeCodeWithBackend_def Let_def)
  have throws: "(\<exists>t. exchange_response (Responds r) = Inl t) \<longleftrightarrow> \<not> ok r \<or> \<not> has_envelope r"
    by (auto simp: exchange_response_def has_envelope_def split: option.splits sum.splits)
  have returns: "ok r \<and> has_envelope r \<longrightarrow>
      (\<exists>j v. body_json r = Some j \<and> get j ''result'' = Inr v \<and>
             exchange_response (Responds r) = Inr v)"
    by (auto simp: exchange_response_def has_envelope_def split: option.splits sum.splits)
  show ?thesis
    using throws returns by (simp add: req res exchange_request_def)
qed

text \<open>When \<^verbatim>\<open>fetch\<close> itself rejects there is no response; the one request was
  issued and the rejection is passed on.\<close>

lemma exchangeCodeWithBackend_fetch_rejects:
  "fetch (exchange_request exchangeUrl code verifier) = Rejects t \<Longrightarrow>
     exchangeCodeWithBackend fetch exchangeUrl code verifier =
       ([exchange_request exchangeUrl code verifier], Inl t)"
  by (simp add: exchangeCodeWithBackend_def Let_def exchange_response_def)

theorem exchangeCodeWithBackend_contract_witness:
  "sample_fetch (exchange_request ''https://api.example.com/exchange'' (JStr ''abc'') ''v'') =
     Responds sample_response \<and>
   ok sample_response \<and> has_envelope sample_response \<and>
   exchangeCodeWithBackend sample_fetch ''https://api.example.com/exchange'' (JStr ''abc'') ''v'' =
     ([\<lparr> req_url = ''https://api.example.com/exchange'', req_method = ''POST'',
         req_headers = [(''Content-Type'', ''application/json'')],
         req_body = JObj [(''data'', JObj [(''code'', JStr ''abc''),
                                           (''codeVerifier'', JStr ''v'')])] \<rparr>],
      Inr (JObj [(''firebaseToken'', JStr ''T''),
             (''user'', JObj [(''uid'', JStr ''U''), (''email'', JStr ''e@x.com''),
                              (''displayName'', JStr ''D''), (''photoURL'', JNull)])]))"
proof -
  have f: "sample_fetch (exchange_request ''https://api.example.com/exchange'' (JStr ''abc'') ''v'') =
     Responds sample_response"
    by (simp add: sample_fetch_def)
  have e: "ok sample_response" "has_envelope sample_response"
    by (simp_all add: ok_def has_envelope_def sample_response_def exchange_body_def)
  show ?thesis
    using f e exchangeCodeWithBackend_contract
      [of sample_fetch "''https://api.example.com/exchange''" "JStr ''abc''" "''v''"
        sample_response, OF f]
    by (auto simp: prod_eq_iff sample_response_def exchange_body_def)
qed

section \<open>Properties of the sign-in flow\<close>

subsection \<open>The invariant is kept\<close>

lemma torn_down_first_append:
  "torn_down_first l t (xs @ ys) \<longleftrightarrow>
     torn_down_first l t xs \<and>
     torn_down_first (l \<or> RemoveEventListener \<in> set xs) (t \<or> ClearInterval \<in> set xs) ys"
  by (induction xs arbitrary: l t)
    (auto simp: eq_commute [of RemoveEventListener] eq_commute [of ClearInterval])

lemma settle_count_append: "settle_count (xs @ ys) = settle_count xs + settle_count ys"
  by (simp add: settle_count_def)

lemma settle_count_simps:
  "settle_count [] = 0"
  "settle_count (e # es) = (if is_settle e then 1 else 0) + settle_count es"
  by (simp_all add: settle_count_def)

lemma is_settle_simps [simp]:
  "is_settle (Resolve r)" "is_settle (Reject e)"
  "\<not> is_settle RemoveEventListener" "\<not> is_settle ClearInterval" "\<not> is_settle PopupClose"
  "\<not> is_settle (Fetch q)" "\<not> is_settle AddEventListener" "\<not> is_settle SetInterval"
  "\<not> is_settle (SetItem k v)" "\<not> is_settle (WindowOpen ps)"
  by (simp_all add: is_settle_def)

lemma listeningD:
  assumes "listening st"
  shows "torn_down_first False False (trace st)" "settle_count (trace st) = 0"
    "promise st = Pending" "listener st" "timer st" "\<not> awaiting_exchange st"
  using assms by (auto simp: listening_def flow_inv_def)

text \<open>Settling a pending flow whose handler and interval are released keeps the invariant.\<close>

lemma inv_reject:
  assumes "torn_down_first False False (trace st)" "settle_count (trace st) = 0"
    "promise st = Pending" "\<not> listener st" "\<not> timer st" "\<not> awaiting_exchange st"
    "RemoveEventListener \<in> set (trace st)" "ClearInterval \<in> set (trace st)"
  shows "flow_inv (reject e st)"
  using assms
  by (simp add: flow_inv_def reject_def torn_down_first_append settle_count_append
      settle_count_simps)

lemma inv_resolve:
  assumes "torn_down_first False False (trace st)" "settle_count (trace st) = 0"
    "promise st = Pending" "\<not> listener st" "\<not> timer st" "\<not> awaiting_exchange st"
    "RemoveEventListener \<in> set (trace st)" "ClearInterval \<in> set (trace st)"
  shows "flow_inv (resolve r st)"
  using assms
  by (simp add: flow_inv_def resolve_def torn_down_first_append settle_count_append
      settle_count_simps)

lemma teardown_facts:
  assumes "listening st"
  shows "torn_down_first False False (trace (teardown st))"
    "settle_count (trace (teardown st)) = 0"
    "promise (teardown st) = Pending" "\<not> listener (teardown st)" "\<not> timer (teardown st)"
    "\<not> awaiting_exchange (teardown st)"
    "RemoveEventListener \<in> set (trace (teardown st))"
    "ClearInterval \<in> set (trace (teardown st))"
  using listeningD [OF assms]
  by (simp_all add: teardown_def torn_down_first_append settle_count_append settle_count_simps)

lemma inv_on_success:
  assumes "listening st"
  shows "flow_inv (on_success this data (teardown st))"
proof -
  note t = teardown_facts [OF assms]
  have rj: "flow_inv (reject e (teardown st))" for e
    by (rule inv_reject [OF t])
  have rs: "flow_inv (resolve r (teardown st))" for r
    by (rule inv_resolve [OF t])
  have fetch: "flow_inv ((teardown st)\<lparr> awaiting_exchange := True,
      trace := trace (teardown st) @ [Fetch q] \<rparr>)" for q
    using t
    by (simp add: flow_inv_def torn_down_first_append settle_count_append settle_count_simps)
  show ?thesis
    unfolding on_success_def
    by (simp add: rj rs fetch split: sum.split prod.split)
qed

lemma inv_messageHandler:
  assumes "listening st" "messageHandler this data st = Inr st'"
  shows "flow_inv st'"
proof -
  note t = teardown_facts [OF assms(1)]
  have rj: "flow_inv (reject e (teardown st))" for e
    by (rule inv_reject [OF t])
  from assms(1) have "flow_inv st" by (simp add: listening_def)
  with assms(2) show ?thesis
    unfolding messageHandler_def
    by (auto simp: rj inv_on_success [OF assms(1)] split: if_splits sum.splits)
qed

lemma inv_checkClosed:
  assumes "listening st"
  shows "flow_inv (checkClosed st)"
  using listeningD [OF assms] assms
  by (simp add: listening_def flow_inv_def checkClosed_def reject_def torn_down_first_append
      settle_count_append settle_count_simps)

lemma inv_on_exchanged:
  assumes "flow_inv st" "promise st = Pending" "awaiting_exchange st"
  shows "flow_inv (on_exchanged outcome st)"
proof -
  let ?st = "st\<lparr> awaiting_exchange := False \<rparr>"
  have t: "torn_down_first False False (trace ?st)" "settle_count (trace ?st) = 0"
    "promise ?st = Pending" "\<not> listener ?st" "\<not> timer ?st" "\<not> awaiting_exchange ?st"
    "RemoveEventListener \<in> set (trace ?st)" "ClearInterval \<in> set (trace ?st)"
    using assms by (simp_all add: flow_inv_def)
  show ?thesis
    unfolding on_exchanged_def Let_def
    by (simp add: inv_reject [OF t] inv_resolve [OF t] split: sum.split)
qed

lemma settled_step:
  assumes "flow_inv st" "promise st \<noteq> Pending"
  shows "step this st ev =
    (case ev of UserClosesPopup \<Rightarrow> st\<lparr> popup_closed := True \<rparr> | _ \<Rightarrow> st)"
  using assms by (simp add: flow_inv_def step_def split: event.split)

lemma inv_popup_closed: "flow_inv (st\<lparr> popup_closed := b \<rparr>) = flow_inv st"
  by (simp add: flow_inv_def)

lemma inv_step:
  assumes "flow_inv st"
  shows "flow_inv (step this st ev)"
proof (cases "promise st = Pending")
  case False
  with assms show ?thesis
    by (simp add: settled_step inv_popup_closed split: event.split)
next
  case True
  show ?thesis
  proof (cases "awaiting_exchange st")
    case True
    with assms \<open>promise st = Pending\<close> have off: "\<not> listener st" "\<not> timer st"
      by (simp_all add: flow_inv_def)
    show ?thesis
      using assms True \<open>promise st = Pending\<close> off
      by (simp add: step_def inv_on_exchanged inv_popup_closed split: event.split)
  next
    case False
    with assms \<open>promise st = Pending\<close> have l: "listening st"
      by (simp add: listening_def)
    show ?thesis
      using assms False l
      by (auto simp: step_def inv_checkClosed inv_popup_closed inv_messageHandler
          split: event.split sum.split)
  qed
qed

lemma run_Nil [simp]: "run this st [] = st"
  by (simp add: run_def)

lemma run_Cons [simp]: "run this st (ev # evs) = run this (step this st ev) evs"
  by (simp add: run_def)

lemma inv_run: "flow_inv st \<Longrightarrow> flow_inv (run this st evs)"
  by (induction evs arbitrary: st) (simp_all add: inv_step)

lemma inv_signIn: "popup_opens b \<Longrightarrow> flow_inv (signIn this b s)"
  by (simp add: signIn_def Let_def flow_inv_def settle_count_simps)

text \<open>Once the promise is settled, no event changes anything but \<open>popup_closed\<close>.\<close>

lemma settled_run:
  assumes "flow_inv st" "promise st \<noteq> Pending"
  shows "promise (run this st evs) = promise st \<and> trace (run this st evs) = trace st \<and>
         \<not> listener (run this st evs) \<and> \<not> timer (run this st evs)"
  using assms
proof (induction evs arbitrary: st)
  case Nil
  then show ?case by (simp add: flow_inv_def)
next
  case (Cons ev evs)
  have i: "flow_inv (step this st ev)" using Cons.prems(1) by (rule inv_step)
  have p: "promise (step this st ev) = promise st" "trace (step this st ev) = trace st"
    using Cons.prems by (simp_all add: settled_step split: event.split)
  show ?case
    using Cons.IH [OF i] p Cons.prems(2) by simp
qed

subsection \<open>The exit paths of a listening flow\<close>

lemma get_truthy: "truthy data \<Longrightarrow> \<exists>v. get data k = Inr v"
  by (cases data) (auto split: option.split)

text \<open>No payload makes the handler throw: the guard on \<^verbatim>\<open>event.data\<close> comes first.\<close>

lemma messageHandler_never_throws: "\<exists>st'. messageHandler this data st = Inr st'"
proof (cases "truthy data")
  case True
  then obtain ty err where "get data ''type'' = Inr ty" "get data ''error'' = Inr err"
    using get_truthy by blast
  then show ?thesis
    by (simp add: messageHandler_def)
next
  case False
  then show ?thesis
    by (simp add: messageHandler_def)
qed

lemma exit_error_message:
  assumes "listening st" "get data ''type'' = Inr (JStr ''TREEVIZ_AUTH_ERROR'')"
  shows "\<exists>e. promise (step this st (Message data)) = Rejected e"
proof -
  have "truthy data" using assms(2) by (cases data) simp_all
  then obtain err where "get data ''error'' = Inr err"
    using get_truthy by blast
  then show ?thesis
    using listeningD [OF assms(1)] assms(2) \<open>truthy data\<close>
    by (simp add: step_def messageHandler_def reject_def teardown_def)
qed

lemma exit_popup_closed:
  assumes "listening st" "popup_closed st"
  shows "promise (step this st Tick) = Rejected AuthenticationCancelled"
  using listeningD [OF assms(1)] assms(2)
  by (simp add: step_def checkClosed_def reject_def)

lemma promise_teardown [simp]: "promise (teardown st) = promise st"
  by (simp add: teardown_def)

lemma exit_success_message:
  assumes "listening st" "get data ''type'' = Inr (JStr ''TREEVIZ_AUTH_SUCCESS'')"
  shows "promise (step this st (Message data)) \<noteq> Pending \<or>
         (awaiting_exchange (step this st (Message data)) \<and>
          (\<forall>outcome. promise (step this (step this st (Message data)) (Exchanged outcome))
             \<noteq> Pending))"
proof -
  have td: "truthy data" using assms(2) by (cases data) simp_all
  have s: "step this st (Message data) = on_success this data (teardown st)"
    using listeningD [OF assms(1)] assms(2) td
    by (simp add: step_def messageHandler_def)
  have p: "promise (teardown st) = Pending"
    using listeningD [OF assms(1)] by simp
  have settle: "promise (on_exchanged outcome st') \<noteq> Pending" if "promise st' = Pending"
    for outcome st'
    using that
    by (simp add: on_exchanged_def Let_def reject_def resolve_def split: sum.split)
  have "promise (on_success this data (teardown st)) \<noteq> Pending \<or>
        (awaiting_exchange (on_success this data (teardown st)) \<and>
         promise (on_success this data (teardown st)) = Pending)"
    using p by (simp add: on_success_def reject_def resolve_def split: sum.split prod.split)
  then show ?thesis
    unfolding s using settle by (auto simp: step_def)
qed


subsection \<open>Sample runs\<close>

lemma sample_run_promise:
  "promise (run sample_client (signIn sample_client sample_browser Map.empty) sample_events) =
     Resolved \<lparr> token = JStr ''T'', uid = JStr ''U'', email = JStr ''e@x.com'',
                displayName = JStr ''D'', photoURL = JNull \<rparr>"
  by code_simp

lemma verifier_provided: "provided (Some (generateCodeVerifier g))"
  using length_generateCodeVerifier [of g] by (auto simp: provided_def)

lemma get_Inr_truthy: "get data k = Inr v \<Longrightarrow> truthy v \<Longrightarrow> truthy data"
  by (cases data) simp_all

text \<open>
  C1. In PKCE mode, when the popup posts a success message with a code and the exchange
  endpoint answers with a 2xx status and a body whose \<open>result\<close> holds
  \<open>firebaseToken\<close> and \<open>user\<close>, the promise resolves to
  \<^verbatim>\<open>{token: result.firebaseToken, uid: result.user.uid, email: result.user.email, displayName: result.user.displayName, photoURL: result.user.photoURL}\<close>,
  whatever these values are; the exchange was asked with the posted code and the
  verifier of this invocation. For the message
  \<^verbatim>\<open>{type: "TREEVIZ_AUTH_SUCCESS", code: "abc"}\<close> and the body
  \<^verbatim>\<open>{result: {firebaseToken: "T", user: {uid: "U", email: "e@x.com", displayName: "D", photoURL: null}}}\<close>
  this is \<^verbatim>\<open>{token: "T", uid: "U", email: "e@x.com", displayName: "D", photoURL: null}\<close>,
  the instance evaluated after the theorem.
\<close>

theorem pkce_success_resolves:
  assumes "this_usePKCE this" "popup_opens b"
    and "get data ''type'' = Inr (JStr ''TREEVIZ_AUTH_SUCCESS'')"
    and "get data ''code'' = Inr code" "truthy code"
    and "ok r" "body_json r = Some body"
    and "get body ''result'' = Inr result" "truthy result"
    and "get result ''firebaseToken'' = Inr tok" "get result ''user'' = Inr user"
    and "get user ''uid'' = Inr u" "get user ''email'' = Inr em"
    and "get user ''displayName'' = Inr dn" "get user ''photoURL'' = Inr ph"
  shows "promise (run this (signIn this b storage) [Message data, Exchanged (Responds r)]) =
           Resolved \<lparr> token = tok, uid = u, email = em, displayName = dn, photoURL = ph \<rparr> \<and>
         Fetch (exchange_request
                  (case this_exchangeTokenUrl this of None \<Rightarrow> ''undefined'' | Some url \<Rightarrow> url)
                  code (generateCodeVerifier (getRandomValues b)))
           \<in> set (trace (run this (signIn this b storage)
                           [Message data, Exchanged (Responds r)]))"
proof -
  let ?st0 = "signIn this b storage"
  have st0: "listener ?st0" "promise ?st0 = Pending" "\<not> awaiting_exchange ?st0"
    "codeVerifier ?st0 = Some (generateCodeVerifier (getRandomValues b))"
    using assms(1,2) by (simp_all add: signIn_def Let_def)
  have td: "truthy data"
    using assms(4,5) by (rule get_Inr_truthy)
  let ?rq = "Fetch (exchange_request
      (case this_exchangeTokenUrl this of None \<Rightarrow> ''undefined'' | Some url \<Rightarrow> url)
      code (generateCodeVerifier (getRandomValues b)))"
  let ?st1 = "step this ?st0 (Message data)"
  have st1: "awaiting_exchange ?st1" "promise ?st1 = Pending" "?rq \<in> set (trace ?st1)"
    using st0 td assms(1,3,4,5) verifier_provided [of "getRandomValues b"]
    by (simp_all add: step_def messageHandler_def on_success_def teardown_def)
  have ex: "exchange_response (Responds r) = Inr result"
    using assms(6-9) by (simp add: exchange_response_def)
  have rd: "read_result result =
      Inr \<lparr> token = tok, uid = u, email = em, displayName = dn, photoURL = ph \<rparr>"
    using assms(10-15) by (simp add: read_result_def)
  show ?thesis
    using st1 by (simp add: step_def on_exchanged_def ex rd resolve_def)
qed

theorem pkce_success_resolves_witness:
  "this_usePKCE sample_client \<and> popup_opens sample_browser \<and>
   get success_message ''type'' = Inr (JStr ''TREEVIZ_AUTH_SUCCESS'') \<and>
   get success_message ''code'' = Inr (JStr ''abc'') \<and> truthy (JStr ''abc'') \<and>
   ok sample_response \<and> body_json sample_response = Some exchange_body \<and>
   promise (run sample_client (signIn sample_client sample_browser Map.empty)
      [Message success_message, Exchanged (Responds sample_response)]) =
     Resolved \<lparr> token = JStr ''T'', uid = JStr ''U'', email = JStr ''e@x.com'',
                displayName = JStr ''D'', photoURL = JNull \<rparr> \<and>
   Fetch (exchange_request ''https://api.example.com/exchange'' (JStr ''abc'')
            (generateCodeVerifier sample_entropy))
     \<in> set (trace (run sample_client (signIn sample_client sample_browser Map.empty)
                     [Message success_message, Exchanged (Responds sample_response)]))"
proof -
  let ?user = "JObj [(''uid'', JStr ''U''), (''email'', JStr ''e@x.com''),
                     (''displayName'', JStr ''D''), (''photoURL'', JNull)]"
  let ?result = "JObj [(''firebaseToken'', JStr ''T''), (''user'', ?user)]"
  have h: "this_usePKCE sample_client" "popup_opens sample_browser"
    "get success_message ''type'' = Inr (JStr ''TREEVIZ_AUTH_SUCCESS'')"
    "get success_message ''code'' = Inr (JStr ''abc'')" "truthy (JStr ''abc'')"
    "ok sample_response" "body_json sample_response = Some exchange_body"
    "get exchange_body ''result'' = Inr ?result" "truthy ?result"
    "get ?result ''firebaseToken'' = Inr (JStr ''T'')" "get ?result ''user'' = Inr ?user"
    "get ?user ''uid'' = Inr (JStr ''U'')" "get ?user ''email'' = Inr (JStr ''e@x.com'')"
    "get ?user ''displayName'' = Inr (JStr ''D'')" "get ?user ''photoURL'' = Inr JNull"
    by (simp_all add: sample_client_def sample_browser_def sample_response_def ok_def
        success_message_def exchange_body_def)
  show ?thesis
    using h(1-7) pkce_success_resolves [OF h, of Map.empty]
    by (simp add: sample_client_def sample_browser_def)
qed

text \<open>
  C5. A message whose payload is absent, has no \<open>type\<close>, or has a \<open>type\<close> other than
  the two terminal ones is ignored: the handler returns normally and the flow is exactly
  as before (promise, listener, interval, popup and trace unchanged).
\<close>

theorem unrecognised_message_ignored:
  "(data = JUndefined \<or> data = JNull \<longrightarrow>
      messageHandler this data st = Inr st \<and> step this st (Message data) = st) \<and>
   (get data ''type'' = Inr JUndefined \<longrightarrow>
      messageHandler this data st = Inr st \<and> step this st (Message data) = st) \<and>
   (\<forall>ty. get data ''type'' = Inr ty \<and> ty \<noteq> JStr ''TREEVIZ_AUTH_SUCCESS'' \<and>
         ty \<noteq> JStr ''TREEVIZ_AUTH_ERROR'' \<longrightarrow>
      messageHandler this data st = Inr st \<and> step this st (Message data) = st)"
  by (auto simp: messageHandler_def step_def)

theorem unrecognised_message_ignored_witness:
  "messageHandler sample_client JNull (signIn sample_client sample_browser Map.empty) =
     Inr (signIn sample_client sample_browser Map.empty) \<and>
   get (JObj [(''source'', JStr ''devtools'')]) ''type'' = Inr JUndefined \<and>
   messageHandler sample_client (JObj [(''source'', JStr ''devtools'')])
       (signIn sample_client sample_browser Map.empty) =
     Inr (signIn sample_client sample_browser Map.empty) \<and>
   get (JObj [(''type'', JStr ''webpackOk'')]) ''type'' = Inr (JStr ''webpackOk'') \<and>
   step sample_client (signIn sample_client sample_browser Map.empty)
       (Message (JObj [(''type'', JStr ''webpackOk'')])) =
     signIn sample_client sample_browser Map.empty"
  using unrecognised_message_ignored
      [of JNull sample_client "signIn sample_client sample_browser Map.empty"]
    unrecognised_message_ignored
      [of "JObj [(''source'', JStr ''devtools'')]" sample_client
        "signIn sample_client sample_browser Map.empty"]
    unrecognised_message_ignored
      [of "JObj [(''type'', JStr ''webpackOk'')]" sample_client
        "signIn sample_client sample_browser Map.empty"]
  by simp

subsection \<open>A blocked popup\<close>

lemma blocked_step: "blocked_inv st \<Longrightarrow> blocked_inv (step this st ev)"
  by (simp add: blocked_inv_def step_def split: event.split)

lemma blocked_run: "blocked_inv st \<Longrightarrow> blocked_inv (run this st evs)"
  by (induction evs arbitrary: st) (simp_all add: blocked_step)

lemma blocked_signIn: "\<not> popup_opens b \<Longrightarrow> blocked_inv (signIn this b storage)"
  by (simp add: blocked_inv_def signIn_def Let_def reject_def)

text \<open>
  C6. When \<^verbatim>\<open>window.open\<close> returns no window, \<^verbatim>\<open>signIn\<close> rejects at
  once with the popup-blocked error, and neither then nor at any later event is a
  message listener registered or an interval set.
\<close>

theorem popup_blocked_rejects:
  assumes "\<not> popup_opens b"
  shows "promise (signIn this b storage) = Rejected PopupBlocked \<and>
         promise (run this (signIn this b storage) evs) = Rejected PopupBlocked \<and>
         \<not> listener (run this (signIn this b storage) evs) \<and>
         \<not> timer (run this (signIn this b storage) evs) \<and>
         AddEventListener \<notin> set (trace (run this (signIn this b storage) evs)) \<and>
         SetInterval \<notin> set (trace (run this (signIn this b storage) evs))"
  using blocked_signIn [OF assms, of this storage]
    blocked_run [OF blocked_signIn [OF assms], of this this storage evs]
  by (simp add: blocked_inv_def)

theorem popup_blocked_rejects_witness:
  "\<not> popup_opens blocking_browser \<and>
   promise (signIn sample_client blocking_browser Map.empty) = Rejected PopupBlocked \<and>
   promise (run sample_client (signIn sample_client blocking_browser Map.empty) sample_events) =
     Rejected PopupBlocked \<and>
   AddEventListener \<notin>
     set (trace (run sample_client (signIn sample_client blocking_browser Map.empty) sample_events))"
proof -
  have h: "\<not> popup_opens blocking_browser"
    by (simp add: blocking_browser_def sample_browser_def)
  show ?thesis
    using h popup_blocked_rejects [OF h, of sample_client Map.empty sample_events] by simp
qed


subsection \<open>Teardown and settlement\<close>

text \<open>
  C2. For a flow whose popup opened, after any sequence of events: every call of
  \<^verbatim>\<open>resolve\<close> or \<^verbatim>\<open>reject\<close> came after the listener was removed and the
  interval cleared; there is at most one such call, and exactly one once the promise is
  settled; a settled flow has no listener and no interval, and no later event changes
  its promise or causes a further effect. Each exit path settles the promise: an error
  message, a tick that finds the popup closed, a success message (at once, or after the
  exchange has answered, whatever the answer).
\<close>

theorem signIn_teardown_before_settle:
  assumes "popup_opens b"
  shows "let st = run this (signIn this b storage) evs in
     torn_down_first False False (trace st) \<and>
     settle_count (trace st) \<le> 1 \<and>
     (promise st \<noteq> Pending \<longrightarrow>
        settle_count (trace st) = 1 \<and> \<not> listener st \<and> \<not> timer st \<and>
        promise (run this st later) = promise st \<and>
        trace (run this st later) = trace st \<and>
        \<not> listener (run this st later) \<and> \<not> timer (run this st later)) \<and>
     (promise st = Pending \<and> \<not> awaiting_exchange st \<longrightarrow>
        listener st \<and> timer st \<and>
        (\<forall>data. get data ''type'' = Inr (JStr ''TREEVIZ_AUTH_ERROR'') \<longrightarrow>
           promise (step this st (Message data)) \<noteq> Pending) \<and>
        (popup_closed st \<longrightarrow> promise (step this st Tick) = Rejected AuthenticationCancelled) \<and>
        (\<forall>data. get data ''type'' = Inr (JStr ''TREEVIZ_AUTH_SUCCESS'') \<longrightarrow>
           promise (step this st (Message data)) \<noteq> Pending \<or>
           awaiting_exchange (step this st (Message data)))) \<and>
     (promise st = Pending \<and> awaiting_exchange st \<longrightarrow>
        \<not> listener st \<and> \<not> timer st \<and>
        (\<forall>outcome. promise (step this st (Exchanged outcome)) \<noteq> Pending))"
proof -
  define st where "st = run this (signIn this b storage) evs"
  have inv: "flow_inv st"
    unfolding st_def by (rule inv_run [OF inv_signIn [OF assms]])
  have order: "torn_down_first False False (trace st)"
    using inv by (simp add: flow_inv_def)
  have count: "settle_count (trace st) \<le> 1"
    using inv by (simp add: flow_inv_def split: if_splits)
  have settled: "settle_count (trace st) = 1 \<and> \<not> listener st \<and> \<not> timer st \<and>
      promise (run this st later) = promise st \<and> trace (run this st later) = trace st \<and>
      \<not> listener (run this st later) \<and> \<not> timer (run this st later)"
    if "promise st \<noteq> Pending"
    using inv that settled_run [OF inv that, of this later] by (simp add: flow_inv_def)
  have waiting: "listener st \<and> timer st \<and>
      (\<forall>data. get data ''type'' = Inr (JStr ''TREEVIZ_AUTH_ERROR'') \<longrightarrow>
         promise (step this st (Message data)) \<noteq> Pending) \<and>
      (popup_closed st \<longrightarrow> promise (step this st Tick) = Rejected AuthenticationCancelled) \<and>
      (\<forall>data. get data ''type'' = Inr (JStr ''TREEVIZ_AUTH_SUCCESS'') \<longrightarrow>
         promise (step this st (Message data)) \<noteq> Pending \<or>
         awaiting_exchange (step this st (Message data)))"
    if "promise st = Pending" "\<not> awaiting_exchange st"
  proof -
    have l: "listening st" using inv that by (simp add: listening_def)
    have e: "promise (step this st (Message data)) \<noteq> Pending"
      if "get data ''type'' = Inr (JStr ''TREEVIZ_AUTH_ERROR'')" for data
      using exit_error_message [OF l that, of this] by auto
    have s: "promise (step this st (Message data)) \<noteq> Pending \<or>
         awaiting_exchange (step this st (Message data))"
      if "get data ''type'' = Inr (JStr ''TREEVIZ_AUTH_SUCCESS'')" for data
      using exit_success_message [OF l that, of this] by blast
    show ?thesis
      using listeningD [OF l] e s exit_popup_closed [OF l, of this] by blast
  qed
  have exchanging: "\<not> listener st \<and> \<not> timer st \<and>
      (\<forall>outcome. promise (step this st (Exchanged outcome)) \<noteq> Pending)"
    if "promise st = Pending" "awaiting_exchange st"
  proof -
    have "promise (on_exchanged outcome st) \<noteq> Pending" for outcome
      using that(1)
      by (simp add: on_exchanged_def Let_def reject_def resolve_def split: sum.split)
    then show ?thesis
      using inv that by (simp add: flow_inv_def step_def)
  qed
  show ?thesis
    unfolding Let_def st_def [symmetric]
    using order count settled waiting exchanging by blast
qed

theorem signIn_teardown_before_settle_witness:
  "popup_opens sample_browser \<and>
   promise (run sample_client (signIn sample_client sample_browser Map.empty) sample_events) =
     Resolved \<lparr> token = JStr ''T'', uid = JStr ''U'', email = JStr ''e@x.com'',
                displayName = JStr ''D'', photoURL = JNull \<rparr> \<and>
   torn_down_first False False
     (trace (run sample_client (signIn sample_client sample_browser Map.empty) sample_events)) \<and>
   settle_count
     (trace (run sample_client (signIn sample_client sample_browser Map.empty) sample_events)) = 1 \<and>
   \<not> listener (run sample_client (signIn sample_client sample_browser Map.empty) sample_events) \<and>
   \<not> timer (run sample_client (signIn sample_client sample_browser Map.empty) sample_events)"
proof -
  have h: "popup_opens sample_browser"
    by (simp add: sample_browser_def)
  show ?thesis
    using h sample_run_promise
      signIn_teardown_before_settle [OF h, of sample_client Map.empty sample_events "[]"]
    by (simp add: Let_def)
qed

subsection \<open>Session storage\<close>

text \<open>No handler of a flow writes the session storage; only the start of an invocation does.\<close>

lemma storage_step: "sessionStorage (step this st ev) = sessionStorage st"
  by (auto simp: step_def messageHandler_def on_success_def on_exchanged_def checkClosed_def
      teardown_def reject_def resolve_def Let_def
      split: event.split sum.splits if_splits prod.splits)

lemma storage_signIn:
  "sessionStorage (signIn this b s) =
     (if this_usePKCE this
      then s(''pkce_code_verifier'' \<mapsto> generateCodeVerifier (getRandomValues b),
             ''pkce_code_challenge'' \<mapsto>
               generateCodeChallenge (sha256 b) (generateCodeVerifier (getRandomValues b)))
      else s)"
  by (simp add: signIn_def Let_def reject_def)

lemma storage_page_step:
  "page_storage (page_step p pe) =
     (case pe of
        StartSignIn this b \<Rightarrow> sessionStorage (signIn this b (page_storage p))
      | Deliver i ev \<Rightarrow> page_storage p)"
  by (simp add: page_step_def Let_def storage_step split: page_event.split)

lemma dom_page_step: "dom (page_storage p) \<subseteq> dom (page_storage (page_step p pe))"
  by (auto simp: storage_page_step storage_signIn split: page_event.split)

lemma page_run_Nil [simp]: "page_run p [] = p"
  by (simp add: page_run_def)

lemma page_run_Cons [simp]: "page_run p (pe # pes) = page_run (page_step p pe) pes"
  by (simp add: page_run_def)

lemma dom_page_run: "dom (page_storage p) \<subseteq> dom (page_storage (page_run p pes))"
proof (induction pes arbitrary: p)
  case Nil
  show ?case by simp
next
  case (Cons pe pes)
  show ?case
    using dom_page_step [of p pe] Cons [of "page_step p pe"] by auto
qed

lemma storage_page_run_quiet:
  "list_all (\<lambda>pe. \<not> starts_pkce pe) pes \<Longrightarrow> page_storage (page_run p pes) = page_storage p"
  by (induction pes arbitrary: p)
    (auto simp: storage_page_step storage_signIn starts_pkce_def split: page_event.splits)

lemma second_verifier:
  "generateCodeVerifier second_entropy = ''BRAbJjE8R1JdaHN-iZSfqrXAy9bh7PcCDRgjLjlET1o''"
  by code_simp

text \<open>
  The session storage is the only thing invocations share: apart from it, the state of
  the \<open>i\<close>-th invocation of a page is the state of that flow run alone on the events
  delivered to it.
\<close>

lemma reject_storage:
  "reject e (st\<lparr> sessionStorage := s \<rparr>) = (reject e st)\<lparr> sessionStorage := s \<rparr>"
  by (simp add: reject_def)

lemma resolve_storage:
  "resolve r (st\<lparr> sessionStorage := s \<rparr>) = (resolve r st)\<lparr> sessionStorage := s \<rparr>"
  by (simp add: resolve_def)

lemma teardown_storage:
  "teardown (st\<lparr> sessionStorage := s \<rparr>) = (teardown st)\<lparr> sessionStorage := s \<rparr>"
  by (simp add: teardown_def)

lemma checkClosed_storage:
  "checkClosed (st\<lparr> sessionStorage := s \<rparr>) = (checkClosed st)\<lparr> sessionStorage := s \<rparr>"
  by (simp add: checkClosed_def reject_def)

lemma on_success_storage:
  "on_success this data (st\<lparr> sessionStorage := s \<rparr>) =
     (on_success this data st)\<lparr> sessionStorage := s \<rparr>"
  by (simp add: on_success_def reject_storage resolve_storage split: sum.split prod.split)

lemma on_exchanged_storage:
  "on_exchanged outcome (st\<lparr> sessionStorage := s \<rparr>) =
     (on_exchanged outcome st)\<lparr> sessionStorage := s \<rparr>"
  by (simp add: on_exchanged_def Let_def reject_def resolve_def split: sum.split)

lemma messageHandler_storage:
  "messageHandler this data (st\<lparr> sessionStorage := s \<rparr>) =
     map_sum id (\<lambda>f. f\<lparr> sessionStorage := s \<rparr>) (messageHandler this data st)"
  by (simp add: messageHandler_def on_success_storage teardown_storage reject_storage
      split: sum.split)

lemma step_storage:
  "step this (st\<lparr> sessionStorage := s \<rparr>) ev = (step this st ev)\<lparr> sessionStorage := s \<rparr>"
  by (cases ev)
    (simp_all add: step_def messageHandler_storage checkClosed_storage on_exchanged_storage
      split: sum.split)

lemma closure_state_eqD:
  "closure_state a = closure_state b \<Longrightarrow> a = b\<lparr> sessionStorage := sessionStorage a \<rparr>"
  by (cases a, cases b) (simp add: closure_state_def)


lemma closure_state_update [simp]:
  "closure_state (f\<lparr> sessionStorage := s \<rparr>) = closure_state f"
  by (simp add: closure_state_def)

lemma closure_state_step:
  assumes "closure_state a = closure_state b"
  shows "closure_state (step this a ev) = closure_state (step this b ev)"
proof -
  have "step this a ev = step this (b\<lparr> sessionStorage := sessionStorage a \<rparr>) ev"
    using closure_state_eqD [OF assms] by (rule arg_cong [where f = "\<lambda>x. step this x ev"])
  also have "\<dots> = (step this b ev)\<lparr> sessionStorage := sessionStorage a \<rparr>"
    by (rule step_storage)
  finally show ?thesis
    by (simp only: closure_state_update)
qed

lemma closure_state_run:
  "closure_state a = closure_state b \<Longrightarrow>
     closure_state (run this a evs) = closure_state (run this b evs)"
proof (induction evs arbitrary: a b)
  case Nil
  then show ?case by simp
next
  case (Cons ev evs)
  have s: "closure_state (step this a ev) = closure_state (step this b ev)"
    using Cons.prems by (rule closure_state_step)
  show ?case
    unfolding run_Cons by (rule Cons.IH [OF s])
qed

lemma page_step_invocation:
  assumes "i < length (invocations p)"
  shows "i < length (invocations (page_step p pe)) \<and>
         fst (invocations (page_step p pe) ! i) = fst (invocations p ! i) \<and>
         closure_state (snd (invocations (page_step p pe) ! i)) =
           closure_state (run (fst (invocations p ! i)) (snd (invocations p ! i))
                            (deliveries i [pe]))"
proof (cases pe)
  case (StartSignIn this b)
  then show ?thesis
    using assms by (simp add: page_step_def Let_def deliveries_def nth_append)
next
  case (Deliver j ev)
  show ?thesis
  proof (cases "j = i")
    case True
    then show ?thesis
      using assms Deliver
      by (simp add: page_step_def Let_def deliveries_def step_storage)
  next
    case False
    then show ?thesis
      using assms Deliver
      by (simp add: page_step_def Let_def deliveries_def)
  qed
qed

lemma deliveries_Cons: "deliveries i (pe # pes) = deliveries i [pe] @ deliveries i pes"
  by (simp add: deliveries_def)

lemma run_append: "run this st (xs @ ys) = run this (run this st xs) ys"
  by (simp add: run_def)

lemma page_run_invocation:
  assumes "i < length (invocations p)"
  shows "i < length (invocations (page_run p pes)) \<and>
         fst (invocations (page_run p pes) ! i) = fst (invocations p ! i) \<and>
         closure_state (snd (invocations (page_run p pes) ! i)) =
           closure_state (run (fst (invocations p ! i)) (snd (invocations p ! i))
                            (deliveries i pes))"
  using assms
proof (induction pes arbitrary: p)
  case Nil
  then show ?case by (simp add: deliveries_def)
next
  case (Cons pe pes)
  let ?q = "page_step p pe"
  let ?c = "fst (invocations p ! i)"
  let ?f = "snd (invocations p ! i)"
  have s: "i < length (invocations ?q)" "fst (invocations ?q ! i) = ?c"
    "closure_state (snd (invocations ?q ! i)) = closure_state (run ?c ?f (deliveries i [pe]))"
    using page_step_invocation [OF Cons.prems, of pe] by blast+
  have ih: "i < length (invocations (page_run ?q pes))"
    "fst (invocations (page_run ?q pes) ! i) = ?c"
    "closure_state (snd (invocations (page_run ?q pes) ! i)) =
       closure_state (run ?c (snd (invocations ?q ! i)) (deliveries i pes))"
    using Cons.IH [OF s(1)] s(2) by auto
  have "closure_state (run ?c (snd (invocations ?q ! i)) (deliveries i pes)) =
        closure_state (run ?c (run ?c ?f (deliveries i [pe])) (deliveries i pes))"
    using s(3) by (rule closure_state_run)
  also have "\<dots> = closure_state (run ?c ?f (deliveries i (pe # pes)))"
    by (simp only: deliveries_Cons [of i pe pes] run_append)
  finally have mid: "closure_state (run ?c (snd (invocations ?q ! i)) (deliveries i pes)) =
      closure_state (run ?c ?f (deliveries i (pe # pes)))" .
  have c: "closure_state (snd (invocations (page_run ?q pes) ! i)) =
      closure_state (run ?c ?f (deliveries i (pe # pes)))"
    using ih(3) mid by (rule trans)
  show ?case
    unfolding page_run_Cons using ih(1,2) c by blast
qed

lemma promise_closure_state: "promise (closure_state f) = promise f"
  by (simp add: closure_state_def)

lemma page_promise:
  assumes "i < length (invocations p)"
  shows "promise (snd (invocations (page_run p pes) ! i)) =
         promise (run (fst (invocations p ! i)) (snd (invocations p ! i)) (deliveries i pes))"
proof -
  have "closure_state (snd (invocations (page_run p pes) ! i)) =
      closure_state (run (fst (invocations p ! i)) (snd (invocations p ! i))
        (deliveries i pes))"
    using page_run_invocation [OF assms, of pes] by blast
  then have "promise (closure_state (snd (invocations (page_run p pes) ! i))) =
      promise (closure_state (run (fst (invocations p ! i)) (snd (invocations p ! i))
        (deliveries i pes)))"
    by (rule arg_cong)
  then show ?thesis
    by (simp only: promise_closure_state)
qed

lemma sample_page_invocations:
  "invocations (page_step empty_page (StartSignIn sample_client sample_browser)) =
     [(sample_client, signIn sample_client sample_browser Map.empty)]"
  by (simp add: page_step_def empty_page_def Let_def)

lemma sample_page_promise:
  "promise (snd (invocations
      (page_run (page_step empty_page (StartSignIn sample_client sample_browser))
         sample_deliveries) ! 0)) =
     Resolved \<lparr> token = JStr ''T'', uid = JStr ''U'', email = JStr ''e@x.com'',
                displayName = JStr ''D'', photoURL = JNull \<rparr>"
proof -
  have d: "deliveries 0 sample_deliveries = sample_events"
    by (simp add: deliveries_def sample_deliveries_def sample_events_def)
  show ?thesis
    by (simp only: page_promise sample_page_invocations d sample_run_promise
        length_Cons list.size nth_Cons_0 fst_conv snd_conv zero_less_Suc)
qed

lemma overlapping_page_promise:
  "promise (snd (invocations
      (page_run (page_step empty_page (StartSignIn sample_client sample_browser))
         overlapping_deliveries) ! 0)) =
     Resolved \<lparr> token = JStr ''T'', uid = JStr ''U'', email = JStr ''e@x.com'',
                displayName = JStr ''D'', photoURL = JNull \<rparr>"
proof -
  have d: "deliveries 0 overlapping_deliveries = sample_events"
    by (simp add: deliveries_def overlapping_deliveries_def sample_deliveries_def
        sample_events_def)
  show ?thesis
    by (simp only: page_promise sample_page_invocations d sample_run_promise
        length_Cons list.size nth_Cons_0 fst_conv snd_conv zero_less_Suc)
qed

lemma cancel_run_promise:
  "promise (run sample_client (signIn sample_client sample_browser Map.empty) cancel_events) =
     Rejected AuthenticationCancelled"
  by code_simp

lemma cancel_page_promise:
  "promise (snd (invocations
      (page_run (page_step empty_page (StartSignIn sample_client sample_browser))
         cancel_deliveries) ! 0)) =
     Rejected AuthenticationCancelled"
proof -
  have d: "deliveries 0 cancel_deliveries = cancel_events"
    by (simp add: deliveries_def cancel_deliveries_def cancel_events_def)
  show ?thesis
    by (simp only: page_promise sample_page_invocations d cancel_run_promise
        length_Cons list.size nth_Cons_0 fst_conv snd_conv zero_less_Suc)
qed

lemma sample_page_start:
  "page_storage (page_step empty_page (StartSignIn sample_client sample_browser)) =
     [''pkce_code_verifier'' \<mapsto> ''AwoRGB8mLTQ7QklQV15lbHN6gYiPlp2kq7K5wMfO1dw'',
      ''pkce_code_challenge'' \<mapsto>
        generateCodeChallenge sample_digest ''AwoRGB8mLTQ7QklQV15lbHN6gYiPlp2kq7K5wMfO1dw'']"
  by (simp add: storage_page_step storage_signIn empty_page_def sample_client_def
      sample_browser_def sample_verifier)

text \<open>
  C9, as the specification states it, has the session storage entries of the verifier
  and the challenge gone once the promise is settled. They are still there, after a
  flow that resolved and after one that was cancelled.
\<close>

theorem pkce_entries_outlive_flow_counterexample:
  "promise (snd (invocations
      (page_run (page_step empty_page (StartSignIn sample_client sample_browser))
         sample_deliveries) ! 0)) =
     Resolved \<lparr> token = JStr ''T'', uid = JStr ''U'', email = JStr ''e@x.com'',
                displayName = JStr ''D'', photoURL = JNull \<rparr> \<and>
   page_storage
     (page_run (page_step empty_page (StartSignIn sample_client sample_browser)) sample_deliveries)
     ''pkce_code_verifier'' = Some ''AwoRGB8mLTQ7QklQV15lbHN6gYiPlp2kq7K5wMfO1dw'' \<and>
   page_storage
     (page_run (page_step empty_page (StartSignIn sample_client sample_browser)) sample_deliveries)
     ''pkce_code_challenge'' =
       Some (generateCodeChallenge sample_digest ''AwoRGB8mLTQ7QklQV15lbHN6gYiPlp2kq7K5wMfO1dw'') \<and>
   promise (snd (invocations
      (page_run (page_step empty_page (StartSignIn sample_client sample_browser))
         cancel_deliveries) ! 0)) =
     Rejected AuthenticationCancelled \<and>
   page_storage
     (page_run (page_step empty_page (StartSignIn sample_client sample_browser)) cancel_deliveries)
     ''pkce_code_verifier'' = Some ''AwoRGB8mLTQ7QklQV15lbHN6gYiPlp2kq7K5wMfO1dw''"
proof -
  have q: "list_all (\<lambda>pe. \<not> starts_pkce pe) sample_deliveries"
    "list_all (\<lambda>pe. \<not> starts_pkce pe) cancel_deliveries"
    by (simp_all add: sample_deliveries_def cancel_deliveries_def starts_pkce_def)
  show ?thesis
    using sample_page_promise cancel_page_promise
    by (simp add: sample_page_start storage_page_run_quiet [OF q(1)]
        storage_page_run_quiet [OF q(2)])
qed

text \<open>
  C9, amended. The client never removes the entries. After a PKCE invocation has
  started, and whatever the page's invocations do afterwards (messages, ticks, a closed
  popup, answers of the exchange, further calls of \<^verbatim>\<open>signIn\<close>), both keys are
  set in the page's session storage, and so is every key that was set before; this
  holds in particular once the promise of the invocation is settled. The two entries
  hold the verifier and the challenge of this invocation as long as no later PKCE
  invocation has started, which writes its own.
\<close>

theorem pkce_entries_never_removed:
  assumes "this_usePKCE this"
  shows "let p = page_run (page_step p0 (StartSignIn this b)) pes in
     page_storage p ''pkce_code_verifier'' \<noteq> None \<and>
     page_storage p ''pkce_code_challenge'' \<noteq> None \<and>
     dom (page_storage p0) \<subseteq> dom (page_storage p) \<and>
     (list_all (\<lambda>pe. \<not> starts_pkce pe) pes \<longrightarrow>
        page_storage p ''pkce_code_verifier'' = Some (generateCodeVerifier (getRandomValues b)) \<and>
        page_storage p ''pkce_code_challenge'' =
          Some (generateCodeChallenge (sha256 b) (generateCodeVerifier (getRandomValues b))))"
proof -
  let ?p1 = "page_step p0 (StartSignIn this b)"
  have s1: "page_storage ?p1 =
      (page_storage p0)(''pkce_code_verifier'' \<mapsto> generateCodeVerifier (getRandomValues b),
        ''pkce_code_challenge'' \<mapsto>
          generateCodeChallenge (sha256 b) (generateCodeVerifier (getRandomValues b)))"
    using assms by (simp add: storage_page_step storage_signIn)
  have d1: "''pkce_code_verifier'' \<in> dom (page_storage ?p1)"
    "''pkce_code_challenge'' \<in> dom (page_storage ?p1)"
    "dom (page_storage p0) \<subseteq> dom (page_storage ?p1)"
    by (auto simp: s1)
  have keys: "''pkce_code_verifier'' \<in> dom (page_storage (page_run ?p1 pes))"
    "''pkce_code_challenge'' \<in> dom (page_storage (page_run ?p1 pes))"
    "dom (page_storage p0) \<subseteq> dom (page_storage (page_run ?p1 pes))"
    using d1 dom_page_run [of ?p1 pes] by blast+
  have quiet: "page_storage (page_run ?p1 pes) = page_storage ?p1"
    if "list_all (\<lambda>pe. \<not> starts_pkce pe) pes"
    using that by (rule storage_page_run_quiet)
  show ?thesis
    unfolding Let_def using keys quiet by (auto simp: s1)
qed

text \<open>
  Two instances: a page with one invocation, where the entries are its own after it has
  resolved, and a page where a second invocation started before the first resolved,
  where the verifier entry is the second invocation's.
\<close>

theorem pkce_entries_never_removed_witness:
  "this_usePKCE sample_client \<and>
   list_all (\<lambda>pe. \<not> starts_pkce pe) sample_deliveries \<and>
   page_storage
     (page_run (page_step empty_page (StartSignIn sample_client sample_browser)) sample_deliveries)
     ''pkce_code_verifier'' = Some (generateCodeVerifier sample_entropy) \<and>
   page_storage
     (page_run (page_step empty_page (StartSignIn sample_client sample_browser)) sample_deliveries)
     ''pkce_code_challenge'' =
       Some (generateCodeChallenge sample_digest (generateCodeVerifier sample_entropy)) \<and>
   promise (snd (invocations
      (page_run (page_step empty_page (StartSignIn sample_client sample_browser))
         overlapping_deliveries) ! 0)) =
     Resolved \<lparr> token = JStr ''T'', uid = JStr ''U'', email = JStr ''e@x.com'',
                displayName = JStr ''D'', photoURL = JNull \<rparr> \<and>
   page_storage
     (page_run (page_step empty_page (StartSignIn sample_client sample_browser))
        overlapping_deliveries)
     ''pkce_code_verifier'' = Some ''BRAbJjE8R1JdaHN-iZSfqrXAy9bh7PcCDRgjLjlET1o'' \<and>
   page_storage
     (page_run (page_step empty_page (StartSignIn sample_client sample_browser))
        overlapping_deliveries)
     ''pkce_code_challenge'' \<noteq> None"
proof -
  have h: "this_usePKCE sample_client"
    by (simp add: sample_client_def)
  have q: "list_all (\<lambda>pe. \<not> starts_pkce pe) sample_deliveries"
    by (simp add: sample_deliveries_def starts_pkce_def)
  have second: "page_storage
     (page_run (page_step empty_page (StartSignIn sample_client sample_browser))
        overlapping_deliveries)
     ''pkce_code_verifier'' = Some ''BRAbJjE8R1JdaHN-iZSfqrXAy9bh7PcCDRgjLjlET1o''"
    using q
    by (simp add: overlapping_deliveries_def storage_page_run_quiet storage_page_step
        storage_signIn sample_client_def second_browser_def second_verifier)
  show ?thesis
    using h q second overlapping_page_promise
      pkce_entries_never_removed [OF h, of empty_page sample_browser sample_deliveries]
      pkce_entries_never_removed [OF h, of empty_page sample_browser overlapping_deliveries]
    by (simp add: Let_def sample_browser_def)
qed

end
